theory Spec2Isabelle
  imports Main "HOL-Library.Multiset" "HOL-Library.Word"
begin

section \<open>The IPA palette plugin (src/main.ts)\<close>

text \<open>
  A shallow embedding of the plugin's configuration store (settings, the visibility
  toggles, the drag-and-drop reordering, the palette rendering) and of its insertion
  target tracker (the active-leaf-change handler and \<open>insertCharacterAtCursor\<close>).
  JavaScript objects that are shared by reference (editors, Markdown views) live in an
  explicit store indexed by references; everything a handler does beyond returning is
  a field of the state it returns.
\<close>

subsection \<open>JavaScript values used by the plugin\<close>

text \<open>
  A JavaScript string is a sequence of UTF-16 code units, and \<open>length\<close> counts them.
  The category names are ASCII and are written as HOL strings; the text of a document
  and the palette's glyphs are lists of 16-bit code units.
\<close>

type_synonym utf16 = "16 word list"

text \<open>
  An element of the \<open>categoryOrder\<close> array. The interface declares \<open>string[]\<close>; at run
  time the drop handler can also store \<open>undefined\<close> (a \<open>splice\<close> that removed
  nothing), so the element type has both.
\<close>

datatype entry = Str string | Undefined

text \<open>
  \<open>Array.prototype.splice(start, deleteCount, ...items)\<close> on a copy of the array:
  the removed elements and the array afterwards. \<open>start\<close> is a number that may be
  \<open>NaN\<close> (\<open>None\<close>), which counts as 0; a negative \<open>start\<close> counts from the end;
  both \<open>start\<close> and \<open>deleteCount\<close> are clamped to the array.
\<close>

definition splice_js :: "'a list \<Rightarrow> int option \<Rightarrow> nat \<Rightarrow> 'a list \<Rightarrow> 'a list \<times> 'a list" where
  "splice_js xs start deleteCount items =
     (let len = int (length xs);
          relativeStart = (case start of None \<Rightarrow> 0 | Some k \<Rightarrow> k);
          actualStart = nat (if relativeStart < 0 then max (len + relativeStart) 0
                             else min relativeStart len);
          actualDeleteCount = min deleteCount (length xs - actualStart)
      in (take actualDeleteCount (drop actualStart xs),
          take actualStart xs @ items @ drop (actualStart + actualDeleteCount) xs))"

subsection \<open>Settings\<close>

record MyPluginSettings =
  showVowels :: bool
  showConsonants :: bool
  showDiacritics :: bool
  showSuprasegmentals :: bool
  categoryOrder :: "entry list"

definition DEFAULT_SETTINGS :: MyPluginSettings where
  "DEFAULT_SETTINGS =
     \<lparr> showVowels = True, showConsonants = True, showDiacritics = True,
       showSuprasegmentals = True,
       categoryOrder = [Str ''Vowels'', Str ''Consonants'', Str ''Diacritics'',
                        Str ''Suprasegmentals''] \<rparr>"

text \<open>
  What \<open>loadData()\<close> resolves to: \<open>null\<close> when nothing was ever saved (\<open>None\<close>),
  otherwise an object in which each field of the interface is present or absent.
\<close>

record PersistedData =
  pShowVowels :: "bool option"
  pShowConsonants :: "bool option"
  pShowDiacritics :: "bool option"
  pShowSuprasegmentals :: "bool option"
  pCategoryOrder :: "entry list option"

text \<open>
  \<open>Object.assign({}, DEFAULT_SETTINGS, data)\<close>: every own property of \<open>data\<close> is
  copied over the copy of the defaults; a \<open>null\<close> source is skipped.
\<close>

definition assignField :: "'a \<Rightarrow> 'a option \<Rightarrow> 'a" where
  "assignField dflt v = (case v of None \<Rightarrow> dflt | Some x \<Rightarrow> x)"

definition Object_assign :: "MyPluginSettings \<Rightarrow> PersistedData option \<Rightarrow> MyPluginSettings" where
  "Object_assign target source =
     (case source of
        None \<Rightarrow> target
      | Some d \<Rightarrow>
          \<lparr> showVowels = assignField (showVowels target) (pShowVowels d),
            showConsonants = assignField (showConsonants target) (pShowConsonants d),
            showDiacritics = assignField (showDiacritics target) (pShowDiacritics d),
            showSuprasegmentals =
              assignField (showSuprasegmentals target) (pShowSuprasegmentals d),
            categoryOrder = assignField (categoryOrder target) (pCategoryOrder d) \<rparr>)"

text \<open>\<open>saveData(this.settings)\<close> writes an object with all five fields.\<close>

definition serialize :: "MyPluginSettings \<Rightarrow> PersistedData" where
  "serialize s =
     \<lparr> pShowVowels = Some (showVowels s), pShowConsonants = Some (showConsonants s),
       pShowDiacritics = Some (showDiacritics s),
       pShowSuprasegmentals = Some (showSuprasegmentals s),
       pCategoryOrder = Some (categoryOrder s) \<rparr>"

subsection \<open>The palette view: glyph tables and rendering\<close>

definition ipaVowels :: "utf16 list" where
  "ipaVowels = map (\<lambda>u. [u])
     [105, 121, 616, 649, 623, 117, 618, 655, 650, 101, 248, 600, 629, 612, 111, 601,
      603, 339, 604, 606, 652, 596, 230, 592, 97, 630, 593, 594]"

definition ipaConsonants :: "utf16 list" where
  "ipaConsonants = map (\<lambda>u. [u])
     [112, 98, 116, 100, 648, 598, 99, 607, 107, 103, 113, 610, 660, 109, 625, 110, 627,
      626, 331, 628, 665, 114, 640, 638, 637, 632, 946, 102, 118, 952, 240, 115, 122,
      643, 658, 642, 656, 231, 669, 120, 611, 967, 641, 295, 661, 104, 614, 620, 622,
      651, 633, 635, 106, 624, 108, 621, 654, 671]"

definition diacritics :: "utf16 list" where
  "diacritics = map (\<lambda>u. [u])
     [805, 812, 825, 796, 799, 800, 776, 829, 809, 815, 734, 804, 816, 828, 810, 826,
      827, 771, 8319, 737, 794, 792, 793, 797, 798, 774, 779, 769, 772, 768, 783, 780,
      770, 7620, 7621, 7624, 8595, 8593, 8599, 8600]"

definition suprasegmentals :: "utf16 list" where
  "suprasegmentals = map (\<lambda>u. [u])
     [712, 716, 720, 721, 774, 124, 8214, 46, 8255, 865]"

text \<open>
  The children of the view's \<open>contentEl\<close>: the heading, and one section per call of
  \<open>createCharacterSection\<close>, with its title and one button per glyph. A click on a
  button calls \<open>insertCharacterAtCursor\<close> with the button's glyph.
\<close>

datatype el = H2 string | Section string "utf16 list"

definition createCharacterSection :: "el list \<Rightarrow> string \<Rightarrow> utf16 list \<Rightarrow> el list" where
  "createCharacterSection container title characters = container @ [Section title characters]"

text \<open>One turn of the \<open>for\<close> loop of \<open>onOpen\<close>: the \<open>switch\<close> on the category.\<close>

definition renderCategory :: "MyPluginSettings \<Rightarrow> el list \<Rightarrow> entry \<Rightarrow> el list" where
  "renderCategory s contentEl category =
     (if category = Str ''Vowels'' then
        (if showVowels s then createCharacterSection contentEl ''Vowels'' ipaVowels
         else contentEl)
      else if category = Str ''Consonants'' then
        (if showConsonants s then createCharacterSection contentEl ''Consonants'' ipaConsonants
         else contentEl)
      else if category = Str ''Diacritics'' then
        (if showDiacritics s then createCharacterSection contentEl ''Diacritics'' diacritics
         else contentEl)
      else if category = Str ''Suprasegmentals'' then
        (if showSuprasegmentals s
         then createCharacterSection contentEl ''Suprasegmentals'' suprasegmentals
         else contentEl)
      else contentEl)"

text \<open>
  \<open>onOpen\<close>: empty the container, add the heading, then run the loop over
  \<open>categoryOrder\<close>. The result is the new content of the container.
\<close>

definition onOpen :: "MyPluginSettings \<Rightarrow> el list" where
  "onOpen s = foldl (renderCategory s) [H2 ''IPA Palette''] (categoryOrder s)"

text \<open>The render plan: the titles of the sections of the rendered palette, in order.\<close>

fun sectionTitles :: "el list \<Rightarrow> string list" where
  "sectionTitles [] = []"
| "sectionTitles (H2 t # es) = sectionTitles es"
| "sectionTitles (Section t cs # es) = t # sectionTitles es"

definition getRenderPlan :: "MyPluginSettings \<Rightarrow> string list" where
  "getRenderPlan s = sectionTitles (onOpen s)"

subsection \<open>The host: editors, Markdown views, focus, notices\<close>

record EditorPosition =
  line :: nat
  ch :: nat

text \<open>
  Modelled from the spec: the host's \<open>Editor\<close> class (package \<open>obsidian\<close>) is not
  part of the repository. The spec's editor handle contract is
  \<open>getCursor() -> {line, ch}\<close>, \<open>replaceRange(text, position)\<close>, \<open>setCursor(position)\<close>,
  \<open>focus()\<close>. An editor holds its document as a list of lines and a cursor.
  \<open>replaceRange\<close> with one position inserts the text there, split at its line breaks;
  \<open>setCursor\<close> clips the position to the document. A position's \<open>ch\<close> counts UTF-16
  code units, as \<open>length\<close> of a JavaScript string does.
\<close>

record Editor =
  doc :: "utf16 list"
  cursor :: EditorPosition

definition clipPos :: "utf16 list \<Rightarrow> EditorPosition \<Rightarrow> EditorPosition" where
  "clipPos ls p =
     (if line p < length ls then \<lparr>line = line p, ch = min (ch p) (length (ls ! line p))\<rparr>
      else \<lparr>line = length ls - 1, ch = (case ls of [] \<Rightarrow> 0 | _ \<Rightarrow> length (last ls))\<rparr>)"

text \<open>Line breaks are \<open>\n\<close>, \<open>\r\<close> and \<open>\r\n\<close>.\<close>

fun splitLines :: "utf16 \<Rightarrow> utf16 list" where
  "splitLines [] = [[]]"
| "splitLines (c # cs) =
     (if c = 10 then [] # splitLines cs
      else if c = 13 then
        (case cs of
           [] \<Rightarrow> [[], []]
         | d # ds \<Rightarrow> if d = 10 then [] # splitLines ds else [] # splitLines cs)
      else (case splitLines cs of [] \<Rightarrow> [[c]] | l # ls \<Rightarrow> (c # l) # ls))"

definition insertLines :: "utf16 list \<Rightarrow> EditorPosition \<Rightarrow> utf16 list \<Rightarrow> utf16 list" where
  "insertLines ls p new =
     (let l = (if line p < length ls then ls ! line p else []);
          before = take (ch p) l;
          after = drop (ch p) l;
          middle = (case new of
                      [] \<Rightarrow> [before @ after]
                    | [x] \<Rightarrow> [before @ x @ after]
                    | x # y # ys \<Rightarrow> (before @ x) # butlast (y # ys) @ [last (y # ys) @ after])
      in take (line p) ls @ middle @ drop (Suc (line p)) ls)"

definition getCursor :: "Editor \<Rightarrow> EditorPosition" where
  "getCursor e = cursor e"

definition replaceRange :: "utf16 \<Rightarrow> EditorPosition \<Rightarrow> Editor \<Rightarrow> Editor" where
  "replaceRange replacement from e =
     e\<lparr>doc := insertLines (doc e) (clipPos (doc e) from) (splitLines replacement)\<rparr>"

definition setCursor :: "EditorPosition \<Rightarrow> Editor \<Rightarrow> Editor" where
  "setCursor pos e = e\<lparr>cursor := clipPos (doc e) pos\<rparr>"

text \<open>
  The workspace is the store of the host's objects, addressed by references. Every
  reference the plugin holds denotes a live object, so the store is total:
  \<open>editors r\<close> is the editor object behind \<open>r\<close>, \<open>viewEditor v\<close> the \<open>editor\<close> field
  of the Markdown view \<open>v\<close>. \<open>activeMarkdownView\<close> is what
  \<open>getActiveViewOfType(MarkdownView)\<close> returns (\<open>None\<close> for \<open>null\<close>), \<open>focused\<close> the
  editor that has the input focus, \<open>notices\<close> the notices shown so far.
\<close>

type_synonym ref = nat

record Workspace =
  editors :: "ref \<Rightarrow> Editor"
  viewEditor :: "ref \<Rightarrow> ref"
  activeMarkdownView :: "ref option"
  focused :: "ref option"
  notices :: "string list"

definition Notice :: "string \<Rightarrow> Workspace \<Rightarrow> Workspace" where
  "Notice message w = w\<lparr>notices := notices w @ [message]\<rparr>"

definition focus :: "ref \<Rightarrow> Workspace \<Rightarrow> Workspace" where
  "focus r w = w\<lparr>focused := Some r\<rparr>"

definition updateEditor :: "ref \<Rightarrow> (Editor \<Rightarrow> Editor) \<Rightarrow> Workspace \<Rightarrow> Workspace" where
  "updateEditor r f w = w\<lparr>editors := (editors w)(r := f (editors w r))\<rparr>"

subsection \<open>The palette view: the insertion target\<close>

record IPAPaletteView =
  lastActiveEditor :: "ref option"
  lastActiveView :: "ref option"
  contentEl :: "el list"

text \<open>The constructor: both fields are initialised to \<open>null\<close>.\<close>

definition newIPAPaletteView :: IPAPaletteView where
  "newIPAPaletteView = \<lparr>lastActiveEditor = None, lastActiveView = None, contentEl = []\<rparr>"

text \<open>The handler registered for \<open>active-leaf-change\<close>.\<close>

definition onActiveLeafChange :: "Workspace \<Rightarrow> IPAPaletteView \<Rightarrow> IPAPaletteView" where
  "onActiveLeafChange w v =
     (case activeMarkdownView w of
        Some activeView \<Rightarrow>
          v\<lparr>lastActiveView := Some activeView,
            lastActiveEditor := Some (viewEditor w activeView)\<rparr>
      | None \<Rightarrow> v)"

text \<open>
  A sequence of focus changes as the host dispatches them: the handler runs once per
  event, each time on the workspace as it is at that event.
\<close>

definition focusChanges :: "Workspace list \<Rightarrow> IPAPaletteView \<Rightarrow> IPAPaletteView" where
  "focusChanges ws v = foldl (\<lambda>u w. onActiveLeafChange w u) v ws"

definition insertCharacterAtCursor :: "utf16 \<Rightarrow> IPAPaletteView \<Rightarrow> Workspace \<Rightarrow> Workspace" where
  "insertCharacterAtCursor char v w =
     (case (lastActiveEditor v, lastActiveView v) of
        (Some editor, Some view) \<Rightarrow>
          (let cursor = getCursor (editors w editor);
               w1 = updateEditor editor (replaceRange char cursor) w;
               w2 = updateEditor editor
                      (setCursor \<lparr>line = line cursor, ch = ch cursor + length char\<rparr>) w1
           in focus (viewEditor w2 view) w2)
      | _ \<Rightarrow>
          Notice ''No active markdown editor found. Please click in an editor first.'' w)"

subsection \<open>The plugin: saving, refreshing, the settings tab\<close>

text \<open>
  The calls a handler makes to its collaborators, in the order it makes them.
  \<open>Rejected\<close> records a \<open>saveData\<close> whose promise rejected: the handler stops at its
  \<open>await\<close> and the rejection is left to the host.
\<close>

datatype call = SaveData MyPluginSettings | RefreshView | Display | Rejected

text \<open>
  The plugin object and the host storage behind it. \<open>ipaView\<close> is the palette
  view once the host has created it. \<open>storageRejects\<close> says whether
  the host's \<open>saveData\<close> fails.
\<close>

record MyPlugin =
  settings :: MyPluginSettings
  ipaView :: "IPAPaletteView option"
  storage :: "PersistedData option"
  storageRejects :: bool
  calls :: "call list"

definition loadSettings :: "MyPlugin \<Rightarrow> MyPlugin" where
  "loadSettings p = p\<lparr>settings := Object_assign DEFAULT_SETTINGS (storage p)\<rparr>"

text \<open>
  \<open>saveSettings\<close> followed by the rest of the handler: \<open>await this.plugin.saveSettings()\<close>
  either stores the settings and the handler goes on with \<open>rest\<close>, or rejects.
\<close>

definition saveSettingsThen :: "(MyPlugin \<Rightarrow> MyPlugin) \<Rightarrow> MyPlugin \<Rightarrow> MyPlugin" where
  "saveSettingsThen rest p =
     (if storageRejects p then p\<lparr>calls := calls p @ [Rejected]\<rparr>
      else rest (p\<lparr>storage := Some (serialize (settings p)),
                   calls := calls p @ [SaveData (settings p)]\<rparr>))"

definition refreshView :: "MyPlugin \<Rightarrow> MyPlugin" where
  "refreshView p =
     (let p' = p\<lparr>calls := calls p @ [RefreshView]\<rparr>
      in case ipaView p' of
           None \<Rightarrow> p'
         | Some v \<Rightarrow> p'\<lparr>ipaView := Some (v\<lparr>contentEl := onOpen (settings p')\<rparr>)\<rparr>)"

text \<open>\<open>display()\<close> rebuilds the settings tab from the current settings.\<close>

definition display :: "MyPlugin \<Rightarrow> MyPlugin" where
  "display p = p\<lparr>calls := calls p @ [Display]\<rparr>"

text \<open>The four toggles of the settings tab and their \<open>onChange\<close> handlers.\<close>

datatype toggle = ShowVowels | ShowConsonants | ShowDiacritics | ShowSuprasegmentals

fun setFlag :: "toggle \<Rightarrow> bool \<Rightarrow> MyPluginSettings \<Rightarrow> MyPluginSettings" where
  "setFlag ShowVowels value s = s\<lparr>showVowels := value\<rparr>"
| "setFlag ShowConsonants value s = s\<lparr>showConsonants := value\<rparr>"
| "setFlag ShowDiacritics value s = s\<lparr>showDiacritics := value\<rparr>"
| "setFlag ShowSuprasegmentals value s = s\<lparr>showSuprasegmentals := value\<rparr>"

definition onChange :: "toggle \<Rightarrow> bool \<Rightarrow> MyPlugin \<Rightarrow> MyPlugin" where
  "onChange t value p =
     saveSettingsThen refreshView (p\<lparr>settings := setFlag t value (settings p)\<rparr>)"

text \<open>
  The \<open>drop\<close> handler of the item at index \<open>toIndex\<close> of the order list.
  \<open>fromIndex\<close> is \<open>parseInt\<close> of the drag's payload: the index the \<open>dragstart\<close>
  handler stored, or any other integer or \<open>NaN\<close> (\<open>None\<close>) for a foreign drag.
  \<open>const [moved] = ...\<close> takes the first removed element, \<open>undefined\<close> if there is
  none.
\<close>

definition dropHandler :: "int option \<Rightarrow> nat \<Rightarrow> MyPlugin \<Rightarrow> MyPlugin" where
  "dropHandler fromIndex toIndex p =
     (if fromIndex \<noteq> Some (int toIndex) then
        (let newOrder = categoryOrder (settings p);
             (removed, newOrder1) = splice_js newOrder fromIndex 1 [];
             moved = (case removed of [] \<Rightarrow> Undefined | x # _ \<Rightarrow> x);
             (none, newOrder2) = splice_js newOrder1 (Some (int toIndex)) 0 [moved]
         in saveSettingsThen (\<lambda>q. display (refreshView q))
              (p\<lparr>settings := (settings p)\<lparr>categoryOrder := newOrder2\<rparr>\<rparr>))
      else p)"

text \<open>
  The \<open>dragstart\<close> handler of the item at index \<open>i\<close> stores \<open>i.toString()\<close>, which
  \<open>parseInt\<close> reads back as \<open>i\<close>.
\<close>

definition dragstart :: "nat \<Rightarrow> int option" where
  "dragstart i = Some (int i)"

text \<open>The four category names.\<close>

definition categoryNames :: "entry list" where
  "categoryNames = [Str ''Vowels'', Str ''Consonants'', Str ''Diacritics'',
                    Str ''Suprasegmentals'']"

text \<open>
  The plugin after \<open>onload\<close>, before the host has created the palette view:
  the settings are loaded from the host storage \<open>data\<close>.
\<close>

definition onload :: "PersistedData option \<Rightarrow> bool \<Rightarrow> MyPlugin" where
  "onload data rejects =
     loadSettings \<lparr>settings = DEFAULT_SETTINGS, ipaView = None, storage = data,
                   storageRejects = rejects, calls = []\<rparr>"

subsection \<open>Notions of the specification\<close>

text \<open>The category a toggle belongs to, and the visibility flag of a category.\<close>

fun categoryOf :: "toggle \<Rightarrow> entry" where
  "categoryOf ShowVowels = Str ''Vowels''"
| "categoryOf ShowConsonants = Str ''Consonants''"
| "categoryOf ShowDiacritics = Str ''Diacritics''"
| "categoryOf ShowSuprasegmentals = Str ''Suprasegmentals''"

definition visible :: "MyPluginSettings \<Rightarrow> entry \<Rightarrow> bool" where
  "visible s c =
     (c = Str ''Vowels'' \<and> showVowels s \<or> c = Str ''Consonants'' \<and> showConsonants s \<or>
      c = Str ''Diacritics'' \<and> showDiacritics s \<or>
      c = Str ''Suprasegmentals'' \<and> showSuprasegmentals s)"

text \<open>A text without line break.\<close>

definition singleLine :: "utf16 \<Rightarrow> bool" where
  "singleLine t = list_all (\<lambda>c. c \<noteq> 10 \<and> c \<noteq> 13) t"

text \<open>A position inside a document.\<close>

definition validPos :: "utf16 list \<Rightarrow> EditorPosition \<Rightarrow> bool" where
  "validPos ls p = (line p < length ls \<and> ch p \<le> length (ls ! line p))"

text \<open>
  A workspace to instantiate the theorems on: every editor holds the two lines
  \<open>pa\<close> and \<open>t\<close> with the cursor after the \<open>p\<close>, the Markdown view \<open>n\<close> owns the
  editor \<open>n + 1\<close>, and the active view is the Markdown view 0.
\<close>

definition sampleWorkspace :: Workspace where
  "sampleWorkspace =
     \<lparr> editors = (\<lambda>r. \<lparr>doc = [[112, 97], [116]], cursor = \<lparr>line = 0, ch = 1\<rparr>\<rparr>),
       viewEditor = Suc, activeMarkdownView = Some 0, focused = None, notices = [] \<rparr>"

section \<open>The configuration store\<close>

subsection \<open>Reordering by drag and drop\<close>

text \<open>
  The two \<open>splice\<close> calls of the drop handler, for indices inside the array: the first
  removes the element at \<open>i\<close>, the second inserts it at \<open>j\<close>.
\<close>

lemma splice_js_remove_one:
  assumes "i < length xs"
  shows "splice_js xs (Some (int i)) 1 [] = ([xs ! i], take i xs @ drop (Suc i) xs)"
proof -
  from assms have "take 1 (drop i xs) = [xs ! i]"
    by (simp add: take_Suc_conv_app_nth)
  with assms show ?thesis
    by (simp add: splice_js_def Let_def min_def)
qed

lemma splice_js_insert_one:
  assumes "j \<le> length ys"
  shows "splice_js ys (Some (int j)) 0 [m] = ([], take j ys @ m # drop j ys)"
  using assms by (simp add: splice_js_def Let_def min_def)

lemma settings_saveSettingsThen_display:
  "settings (saveSettingsThen (\<lambda>q. display (refreshView q)) p) = settings p"
  by (simp add: saveSettingsThen_def display_def refreshView_def Let_def split: option.splits)

lemma dropHandler_order:
  assumes "i < length (categoryOrder (settings p))" "j < length (categoryOrder (settings p))" "i \<noteq> j"
  shows "categoryOrder (settings (dropHandler (Some (int i)) j p)) =
           take j (take i (categoryOrder (settings p)) @ drop (Suc i) (categoryOrder (settings p)))
           @ categoryOrder (settings p) ! i
           # drop j (take i (categoryOrder (settings p)) @ drop (Suc i) (categoryOrder (settings p)))"
proof -
  define xs where "xs = categoryOrder (settings p)"
  define ys where "ys = take i xs @ drop (Suc i) xs"
  have i: "i < length xs" and j: "j < length xs" using assms by (simp_all add: xs_def)
  have len: "j \<le> length ys" using i j by (simp add: ys_def)
  have rem: "splice_js xs (Some (int i)) 1 [] = ([xs ! i], ys)"
    unfolding ys_def using i by (rule splice_js_remove_one)
  have ins: "splice_js ys (Some (int j)) 0 [xs ! i] = ([], take j ys @ xs ! i # drop j ys)"
    using len by (rule splice_js_insert_one)
  have "dropHandler (Some (int i)) j p =
          saveSettingsThen (\<lambda>q. display (refreshView q))
            (p\<lparr>settings := (settings p)\<lparr>categoryOrder := take j ys @ xs ! i # drop j ys\<rparr>\<rparr>)"
    using assms(3) rem ins by (simp add: dropHandler_def Let_def xs_def [symmetric])
  then have "categoryOrder (settings (dropHandler (Some (int i)) j p)) = take j ys @ xs ! i # drop j ys"
    by (simp add: settings_saveSettingsThen_display)
  then show ?thesis by (simp only: ys_def xs_def)
qed

lemma move_mset:
  assumes "i < length xs"
  shows "mset (take j (take i xs @ drop (Suc i) xs) @ xs ! i # drop j (take i xs @ drop (Suc i) xs)) = mset xs"
proof -
  let ?ys = "take i xs @ drop (Suc i) xs"
  have "mset (take j ?ys @ xs ! i # drop j ?ys) = add_mset (xs ! i) (mset (take j ?ys @ drop j ?ys))"
    by simp
  also have "\<dots> = add_mset (xs ! i) (mset ?ys)" by (simp only: append_take_drop_id)
  also have "\<dots> = mset (take i xs @ xs ! i # drop (Suc i) xs)" by simp
  also have "\<dots> = mset xs" using assms by (simp only: id_take_nth_drop [symmetric])
  finally show ?thesis .
qed

lemma move_nth:
  assumes "i < length xs" "j < length xs"
  shows "(take j (take i xs @ drop (Suc i) xs) @ xs ! i # drop j (take i xs @ drop (Suc i) xs)) ! j = xs ! i"
proof -
  have "length (take j (take i xs @ drop (Suc i) xs)) = j" using assms by simp
  then show ?thesis by (metis nth_append_length)
qed

lemma filter_remove_nth:
  assumes "i < length xs"
  shows "filter (\<lambda>x. x \<noteq> xs ! i) (take i xs @ drop (Suc i) xs) = filter (\<lambda>x. x \<noteq> xs ! i) xs"
proof -
  have "filter (\<lambda>x. x \<noteq> xs ! i) xs = filter (\<lambda>x. x \<noteq> xs ! i) (take i xs @ xs ! i # drop (Suc i) xs)"
    using assms by (simp only: id_take_nth_drop [symmetric])
  then show ?thesis by simp
qed

lemma move_filter:
  assumes "i < length xs"
  shows "filter (\<lambda>x. x \<noteq> xs ! i) (take j (take i xs @ drop (Suc i) xs) @ xs ! i # drop j (take i xs @ drop (Suc i) xs))
         = filter (\<lambda>x. x \<noteq> xs ! i) xs"
proof -
  let ?ys = "take i xs @ drop (Suc i) xs"
  have "filter (\<lambda>x. x \<noteq> xs ! i) (take j ?ys @ xs ! i # drop j ?ys)
        = filter (\<lambda>x. x \<noteq> xs ! i) (take j ?ys @ drop j ?ys)" by simp
  also have "\<dots> = filter (\<lambda>x. x \<noteq> xs ! i) ?ys" by (simp only: append_take_drop_id)
  also have "\<dots> = filter (\<lambda>x. x \<noteq> xs ! i) xs" using assms by (rule filter_remove_nth)
  finally show ?thesis .
qed


text \<open>
  Claim C1. Let the order be a permutation of the four category names, let the drag
  start on the item of \<open>category\<close> (at index \<open>i\<close>) and end on the item at index
  \<open>newIndex\<close>. Then the order after the drop is still a permutation of the four names,
  \<open>category\<close> is at \<open>newIndex\<close>, and the other categories are in the same relative
  order as before. From the default order, dragging Diacritics (index 2) to index 0
  gives Diacritics, Vowels, Consonants, Suprasegmentals.
\<close>

theorem reorder_keeps_permutation:
  assumes "mset (categoryOrder (settings p)) = mset categoryNames"
    and "i < length (categoryOrder (settings p))"
    and "categoryOrder (settings p) ! i = category"
    and "newIndex < length (categoryOrder (settings p))"
  shows "mset (categoryOrder (settings (dropHandler (dragstart i) newIndex p))) = mset categoryNames
       \<and> categoryOrder (settings (dropHandler (dragstart i) newIndex p)) ! newIndex = category
       \<and> filter (\<lambda>c. c \<noteq> category) (categoryOrder (settings (dropHandler (dragstart i) newIndex p)))
           = filter (\<lambda>c. c \<noteq> category) (categoryOrder (settings p))
       \<and> categoryOrder (settings (dropHandler (dragstart 2) 0 (p\<lparr>settings := DEFAULT_SETTINGS\<rparr>)))
           = [Str ''Diacritics'', Str ''Vowels'', Str ''Consonants'', Str ''Suprasegmentals'']"
proof -
  define xs where "xs = categoryOrder (settings p)"
  define zs where "zs = categoryOrder (settings (dropHandler (dragstart i) newIndex p))"
  have i: "i < length xs" and j: "newIndex < length xs" and c: "xs ! i = category"
    using assms by (simp_all add: xs_def)
  have main: "mset zs = mset xs \<and> zs ! newIndex = xs ! i
              \<and> filter (\<lambda>c. c \<noteq> xs ! i) zs = filter (\<lambda>c. c \<noteq> xs ! i) xs"
  proof (cases "i = newIndex")
    case True
    then have "zs = xs" by (simp add: zs_def xs_def dropHandler_def dragstart_def)
    with True show ?thesis by simp
  next
    case False
    have "zs = take newIndex (take i xs @ drop (Suc i) xs) @ xs ! i
               # drop newIndex (take i xs @ drop (Suc i) xs)"
      unfolding zs_def xs_def dragstart_def
      using assms(2) assms(4) False by (rule dropHandler_order)
    then show ?thesis
      using move_mset [OF i, of newIndex] move_nth [OF i j] move_filter [OF i, of newIndex]
      by (simp only:)
  qed
  let ?d = "p\<lparr>settings := DEFAULT_SETTINGS\<rparr>"
  have "categoryOrder (settings (dropHandler (Some (int 2)) 0 ?d))
        = take 0 (take 2 (categoryOrder (settings ?d)) @ drop (Suc 2) (categoryOrder (settings ?d)))
          @ categoryOrder (settings ?d) ! 2
          # drop 0 (take 2 (categoryOrder (settings ?d)) @ drop (Suc 2) (categoryOrder (settings ?d)))"
    by (rule dropHandler_order) (simp_all add: DEFAULT_SETTINGS_def)
  then have ex: "categoryOrder (settings (dropHandler (dragstart 2) 0 ?d))
        = [Str ''Diacritics'', Str ''Vowels'', Str ''Consonants'', Str ''Suprasegmentals'']"
    by (simp add: DEFAULT_SETTINGS_def dragstart_def)
  from main c assms(1) ex show ?thesis
    by (simp only: zs_def [symmetric] xs_def [symmetric] simp_thms)
qed

text \<open>The theorem at the default order, moving Diacritics to the front.\<close>

theorem reorder_keeps_permutation_witness:
  "mset (categoryOrder (settings (onload None False))) = mset categoryNames
   \<and> 2 < length (categoryOrder (settings (onload None False)))
   \<and> categoryOrder (settings (onload None False)) ! 2 = Str ''Diacritics''
   \<and> 0 < length (categoryOrder (settings (onload None False)))
   \<and> mset (categoryOrder (settings (dropHandler (dragstart 2) 0 (onload None False)))) = mset categoryNames
   \<and> categoryOrder (settings (dropHandler (dragstart 2) 0 (onload None False))) ! 0 = Str ''Diacritics''
   \<and> filter (\<lambda>c. c \<noteq> Str ''Diacritics'') (categoryOrder (settings (dropHandler (dragstart 2) 0 (onload None False))))
       = [Str ''Vowels'', Str ''Consonants'', Str ''Suprasegmentals'']"
proof -
  have o: "categoryOrder (settings (onload None False)) = categoryNames"
    by (simp add: onload_def loadSettings_def Object_assign_def DEFAULT_SETTINGS_def categoryNames_def)
  have h1: "mset (categoryOrder (settings (onload None False))) = mset categoryNames"
    by (simp only: o)
  have h2: "2 < length (categoryOrder (settings (onload None False)))"
    by (simp add: o categoryNames_def)
  have h3: "categoryOrder (settings (onload None False)) ! 2 = Str ''Diacritics''"
    by (simp add: o categoryNames_def)
  have h4: "0 < length (categoryOrder (settings (onload None False)))"
    by (simp add: o categoryNames_def)
  have f: "filter (\<lambda>c. c \<noteq> Str ''Diacritics'') (categoryOrder (settings (onload None False)))
           = [Str ''Vowels'', Str ''Consonants'', Str ''Suprasegmentals'']"
    by (simp add: o categoryNames_def)
  from reorder_keeps_permutation [OF h1 h2 h3 h4] h1 h2 h3 h4 f show ?thesis
    by (simp only: simp_thms)
qed

text \<open>
  A payload that is no index of the list is outside the reordering above: with an
  index past the end nothing is removed and \<open>undefined\<close> is inserted; with \<open>NaN\<close> the
  first element is moved.
\<close>

lemma dropHandler_foreign_payload:
  "categoryOrder (settings (dropHandler (Some 7) 0 (onload None False)))
     = [Undefined, Str ''Vowels'', Str ''Consonants'', Str ''Diacritics'', Str ''Suprasegmentals'']
   \<and> categoryOrder (settings (dropHandler None 2 (onload None False)))
     = [Str ''Consonants'', Str ''Diacritics'', Str ''Vowels'', Str ''Suprasegmentals'']"
  by (simp add: dropHandler_def splice_js_def Let_def settings_saveSettingsThen_display
        onload_def loadSettings_def Object_assign_def DEFAULT_SETTINGS_def)

subsection \<open>Loading\<close>

text \<open>
  Claim C5. \<open>loadSettings\<close> merges the persisted data over the defaults field by
  field: with no persisted data the settings are the defaults; otherwise each field
  that is absent has its default value and each field that is present has the
  persisted value. The persisted data \<open>{showVowels: false}\<close> gives \<open>showVowels = false\<close>,
  the three other flags \<open>true\<close> and the default order.
\<close>

theorem load_merges_fieldwise:
  "(storage p = None \<longrightarrow> settings (loadSettings p) = DEFAULT_SETTINGS)
   \<and> (\<forall>d. storage p = Some d \<longrightarrow>
         (pShowVowels d = None \<longrightarrow>
            showVowels (settings (loadSettings p)) = showVowels DEFAULT_SETTINGS)
       \<and> (\<forall>b. pShowVowels d = Some b \<longrightarrow> showVowels (settings (loadSettings p)) = b)
       \<and> (pShowConsonants d = None \<longrightarrow>
            showConsonants (settings (loadSettings p)) = showConsonants DEFAULT_SETTINGS)
       \<and> (\<forall>b. pShowConsonants d = Some b \<longrightarrow> showConsonants (settings (loadSettings p)) = b)
       \<and> (pShowDiacritics d = None \<longrightarrow>
            showDiacritics (settings (loadSettings p)) = showDiacritics DEFAULT_SETTINGS)
       \<and> (\<forall>b. pShowDiacritics d = Some b \<longrightarrow> showDiacritics (settings (loadSettings p)) = b)
       \<and> (pShowSuprasegmentals d = None \<longrightarrow>
            showSuprasegmentals (settings (loadSettings p))
              = showSuprasegmentals DEFAULT_SETTINGS)
       \<and> (\<forall>b. pShowSuprasegmentals d = Some b \<longrightarrow>
            showSuprasegmentals (settings (loadSettings p)) = b)
       \<and> (pCategoryOrder d = None \<longrightarrow>
            categoryOrder (settings (loadSettings p)) = categoryOrder DEFAULT_SETTINGS)
       \<and> (\<forall>xs. pCategoryOrder d = Some xs \<longrightarrow>
            categoryOrder (settings (loadSettings p)) = xs))
   \<and> settings (loadSettings (p\<lparr>storage := Some \<lparr>pShowVowels = Some False,
          pShowConsonants = None, pShowDiacritics = None, pShowSuprasegmentals = None,
          pCategoryOrder = None\<rparr>\<rparr>))
       = \<lparr>showVowels = False, showConsonants = True, showDiacritics = True,
          showSuprasegmentals = True,
          categoryOrder = [Str ''Vowels'', Str ''Consonants'', Str ''Diacritics'',
                           Str ''Suprasegmentals'']\<rparr>"
proof -
  have none: "storage p = None \<Longrightarrow> settings (loadSettings p) = DEFAULT_SETTINGS"
    by (simp add: loadSettings_def Object_assign_def)
  have some: "storage p = Some d \<Longrightarrow>
       showVowels (settings (loadSettings p)) = assignField (showVowels DEFAULT_SETTINGS) (pShowVowels d)
     \<and> showConsonants (settings (loadSettings p)) = assignField (showConsonants DEFAULT_SETTINGS) (pShowConsonants d)
     \<and> showDiacritics (settings (loadSettings p)) = assignField (showDiacritics DEFAULT_SETTINGS) (pShowDiacritics d)
     \<and> showSuprasegmentals (settings (loadSettings p)) = assignField (showSuprasegmentals DEFAULT_SETTINGS) (pShowSuprasegmentals d)
     \<and> categoryOrder (settings (loadSettings p)) = assignField (categoryOrder DEFAULT_SETTINGS) (pCategoryOrder d)" for d
    by (simp add: loadSettings_def Object_assign_def)
  have ex: "settings (loadSettings (p\<lparr>storage := Some \<lparr>pShowVowels = Some False,
          pShowConsonants = None, pShowDiacritics = None, pShowSuprasegmentals = None,
          pCategoryOrder = None\<rparr>\<rparr>))
       = \<lparr>showVowels = False, showConsonants = True, showDiacritics = True,
          showSuprasegmentals = True,
          categoryOrder = [Str ''Vowels'', Str ''Consonants'', Str ''Diacritics'',
                           Str ''Suprasegmentals'']\<rparr>"
    by (simp add: loadSettings_def Object_assign_def assignField_def DEFAULT_SETTINGS_def)
  from none some ex show ?thesis
    by (simp add: assignField_def)
qed

text \<open>The theorem at the persisted data \<open>{showVowels: false}\<close>.\<close>

theorem load_merges_fieldwise_witness:
  "storage (onload (Some \<lparr>pShowVowels = Some False, pShowConsonants = None,
       pShowDiacritics = None, pShowSuprasegmentals = None, pCategoryOrder = None\<rparr>) False)
     = Some \<lparr>pShowVowels = Some False, pShowConsonants = None,
         pShowDiacritics = None, pShowSuprasegmentals = None, pCategoryOrder = None\<rparr>
   \<and> showVowels (settings (loadSettings (onload (Some \<lparr>pShowVowels = Some False,
       pShowConsonants = None, pShowDiacritics = None, pShowSuprasegmentals = None,
       pCategoryOrder = None\<rparr>) False))) = False
   \<and> showConsonants (settings (loadSettings (onload (Some \<lparr>pShowVowels = Some False,
       pShowConsonants = None, pShowDiacritics = None, pShowSuprasegmentals = None,
       pCategoryOrder = None\<rparr>) False))) = showConsonants DEFAULT_SETTINGS
   \<and> categoryOrder (settings (loadSettings (onload (Some \<lparr>pShowVowels = Some False,
       pShowConsonants = None, pShowDiacritics = None, pShowSuprasegmentals = None,
       pCategoryOrder = None\<rparr>) False))) = categoryOrder DEFAULT_SETTINGS"
proof -
  have h: "storage (onload (Some \<lparr>pShowVowels = Some False, pShowConsonants = None,
       pShowDiacritics = None, pShowSuprasegmentals = None, pCategoryOrder = None\<rparr>) False)
     = Some \<lparr>pShowVowels = Some False, pShowConsonants = None,
         pShowDiacritics = None, pShowSuprasegmentals = None, pCategoryOrder = None\<rparr>"
    by (simp add: onload_def loadSettings_def)
  from load_merges_fieldwise [of "onload (Some \<lparr>pShowVowels = Some False,
       pShowConsonants = None, pShowDiacritics = None, pShowSuprasegmentals = None,
       pCategoryOrder = None\<rparr>) False"] h
  show ?thesis by auto
qed

subsection \<open>Dropping an item on itself\<close>

text \<open>
  Claim C6, as amended. When the drag ends on the item it started on (\<open>newIndex\<close> is
  the category's current index), the guard \<open>fromIndex !== toIndex\<close> skips the whole
  handler: the order is unchanged, nothing is saved and no refresh is requested. The
  plugin state, its storage and its call log are exactly as before.
\<close>

theorem reorder_same_index_does_nothing:
  "dropHandler (dragstart i) i p = p"
  by (simp add: dropHandler_def dragstart_def)

text \<open>
  The claim as stated (the configuration is still persisted and a re-render is still
  requested) fails on a first run, dropping Consonants (index 1) on itself: the
  storage does not hold the settings and no refresh was requested.
\<close>

theorem reorder_same_index_counterexample:
  "\<not> (storage (dropHandler (dragstart 1) 1 (onload None False))
         = Some (serialize (settings (dropHandler (dragstart 1) 1 (onload None False))))
       \<or> RefreshView \<in> set (calls (dropHandler (dragstart 1) 1 (onload None False))))"
  by (simp add: dropHandler_def dragstart_def onload_def loadSettings_def)

subsection \<open>Rendering\<close>

text \<open>
  The titles of the rendered sections, as entries, are the entries of the order whose
  visibility flag is set, in the order's sequence.
\<close>

lemma renderCategory_titles:
  "map Str (sectionTitles (renderCategory s acc c))
     = map Str (sectionTitles acc) @ (if visible s c then [c] else [])"
proof -
  have app: "sectionTitles (xs @ ys) = sectionTitles xs @ sectionTitles ys" for xs ys
    by (induction xs rule: sectionTitles.induct) simp_all
  show ?thesis
    by (simp add: renderCategory_def visible_def createCharacterSection_def app)
qed


lemma onOpen_titles:
  "map Str (sectionTitles (foldl (renderCategory s) acc cs))
     = map Str (sectionTitles acc) @ filter (visible s) cs"
  by (induction cs arbitrary: acc) (simp_all add: renderCategory_titles)

lemma getRenderPlan_filter:
  "map Str (getRenderPlan s) = filter (visible s) (categoryOrder s)"
  by (simp add: getRenderPlan_def onOpen_def onOpen_titles)

lemma settings_onChange: "settings (onChange t b p) = setFlag t b (settings p)"
  by (simp add: onChange_def saveSettingsThen_def refreshView_def Let_def split: option.splits)

lemma categoryOrder_setFlag: "categoryOrder (setFlag t b s) = categoryOrder s"
  by (cases t) simp_all

lemma visible_setFlag:
  "visible (setFlag t b s) c = (if c = categoryOf t then b else visible s c)"
  by (cases t) (auto simp add: visible_def)

lemma setFlag_twice: "setFlag t b' (setFlag t b s) = setFlag t b' s"
  by (cases t) simp_all

text \<open>
  Claim C7. The render plan is the list of the categories of the order whose
  visibility flag is true, in the order's sequence. After a category is toggled off it
  is not in the plan; after it is toggled back on the plan is the order filtered by
  the flags with that category visible, so the category is back at its place in the
  order. When the palette view exists and the save succeeds, the content of the view
  after a toggle is the rendering of the new settings.
\<close>

theorem render_plan_follows_flags:
  "map Str (getRenderPlan s) = filter (visible s) (categoryOrder s)
   \<and> categoryOf t \<notin> set (map Str (getRenderPlan (settings (onChange t False p))))
   \<and> map Str (getRenderPlan (settings (onChange t True (onChange t False p))))
       = filter (\<lambda>c. c = categoryOf t \<or> visible (settings p) c) (categoryOrder (settings p))
   \<and> (\<forall>v. ipaView p = Some v \<and> \<not> storageRejects p \<longrightarrow>
         ipaView (onChange t b p) = Some (v\<lparr>contentEl := onOpen (settings (onChange t b p))\<rparr>))"
proof -
  have off: "categoryOf t \<notin> set (map Str (getRenderPlan (settings (onChange t False p))))"
    by (simp only: getRenderPlan_filter settings_onChange)
       (simp add: visible_setFlag)
  have "filter (visible (setFlag t True (settings p))) (categoryOrder (settings p))
        = filter (\<lambda>c. c = categoryOf t \<or> visible (settings p) c) (categoryOrder (settings p))"
    by (rule filter_cong) (auto simp add: visible_setFlag)
  then have on: "map Str (getRenderPlan (settings (onChange t True (onChange t False p))))
       = filter (\<lambda>c. c = categoryOf t \<or> visible (settings p) c) (categoryOrder (settings p))"
    by (simp only: getRenderPlan_filter settings_onChange setFlag_twice categoryOrder_setFlag)
  have shown: "ipaView p = Some v \<and> \<not> storageRejects p \<longrightarrow>
         ipaView (onChange t b p) = Some (v\<lparr>contentEl := onOpen (settings (onChange t b p))\<rparr>)" for v
    by (simp add: onChange_def saveSettingsThen_def refreshView_def Let_def)
  from getRenderPlan_filter [of s] off on shown show ?thesis by blast
qed

text \<open>The theorem on a first run with the palette open, toggling Consonants off.\<close>

theorem render_plan_follows_flags_witness:
  "ipaView ((onload None False)\<lparr>ipaView := Some newIPAPaletteView\<rparr>) = Some newIPAPaletteView
   \<and> \<not> storageRejects ((onload None False)\<lparr>ipaView := Some newIPAPaletteView\<rparr>)
   \<and> getRenderPlan DEFAULT_SETTINGS = [''Vowels'', ''Consonants'', ''Diacritics'', ''Suprasegmentals'']
   \<and> map sectionTitles (map contentEl (case ipaView (onChange ShowConsonants False
         ((onload None False)\<lparr>ipaView := Some newIPAPaletteView\<rparr>)) of None \<Rightarrow> [] | Some v \<Rightarrow> [v]))
       = [[''Vowels'', ''Diacritics'', ''Suprasegmentals'']]"
proof -
  have h: "ipaView ((onload None False)\<lparr>ipaView := Some newIPAPaletteView\<rparr>) = Some newIPAPaletteView
   \<and> \<not> storageRejects ((onload None False)\<lparr>ipaView := Some newIPAPaletteView\<rparr>)"
    by (simp add: onload_def loadSettings_def)
  have s: "settings (onChange ShowConsonants False ((onload None False)\<lparr>ipaView := Some newIPAPaletteView\<rparr>))
           = DEFAULT_SETTINGS\<lparr>showConsonants := False\<rparr>"
    by (simp add: settings_onChange onload_def loadSettings_def Object_assign_def)
  have r: "sectionTitles (onOpen (DEFAULT_SETTINGS\<lparr>showConsonants := False\<rparr>))
           = [''Vowels'', ''Diacritics'', ''Suprasegmentals'']"
    by (simp add: onOpen_def DEFAULT_SETTINGS_def renderCategory_def createCharacterSection_def)
  have d: "getRenderPlan DEFAULT_SETTINGS = [''Vowels'', ''Consonants'', ''Diacritics'', ''Suprasegmentals'']"
    by (simp add: getRenderPlan_def onOpen_def DEFAULT_SETTINGS_def renderCategory_def createCharacterSection_def)
  from render_plan_follows_flags [of DEFAULT_SETTINGS ShowConsonants
        "(onload None False)\<lparr>ipaView := Some newIPAPaletteView\<rparr>" False] h s r d
  show ?thesis by simp
qed

text \<open>
  Claim C8. Applying the same toggle value twice gives the same plugin state as
  applying it once (settings, palette view, storage; only the log of calls made is
  longer), and the same render plan.
\<close>

theorem setVisibility_idempotent:
  "(onChange t b (onChange t b p))\<lparr>calls := []\<rparr> = (onChange t b p)\<lparr>calls := []\<rparr>
   \<and> getRenderPlan (settings (onChange t b (onChange t b p)))
       = getRenderPlan (settings (onChange t b p))"
proof -
  have "(onChange t b (onChange t b p))\<lparr>calls := []\<rparr> = (onChange t b p)\<lparr>calls := []\<rparr>"
    by (simp add: onChange_def saveSettingsThen_def refreshView_def Let_def setFlag_twice
             split: option.splits)
  moreover have "settings (onChange t b (onChange t b p)) = settings (onChange t b p)"
    by (simp add: settings_onChange setFlag_twice)
  ultimately show ?thesis by simp
qed

lemma renderCategory_unknown:
  "c \<notin> set categoryNames \<Longrightarrow> renderCategory s acc c = acc"
  by (simp add: renderCategory_def categoryNames_def)

lemma renderCategory_order_irrelevant:
  "renderCategory (s\<lparr>categoryOrder := xs\<rparr>) = renderCategory s"
  by (rule ext, rule ext) (simp add: renderCategory_def)

text \<open>
  Claim C10. An entry of the order that is none of the four category names (another
  string, or \<open>undefined\<close>) matches no case of the \<open>switch\<close>: the rendering is the
  same as without the entry, and the render plan holds only known category names.
\<close>

theorem unknown_category_skipped:
  assumes "c \<notin> set categoryNames"
  shows "onOpen (s\<lparr>categoryOrder := xs @ c # ys\<rparr>) = onOpen (s\<lparr>categoryOrder := xs @ ys\<rparr>)
       \<and> set (map Str (getRenderPlan (s\<lparr>categoryOrder := xs @ c # ys\<rparr>))) \<subseteq> set categoryNames
       \<and> c \<notin> set (map Str (getRenderPlan (s\<lparr>categoryOrder := xs @ c # ys\<rparr>)))"
proof -
  have same: "onOpen (s\<lparr>categoryOrder := xs @ c # ys\<rparr>) = onOpen (s\<lparr>categoryOrder := xs @ ys\<rparr>)"
    using assms by (simp add: onOpen_def renderCategory_order_irrelevant renderCategory_unknown)
  have vis: "visible t e \<Longrightarrow> e \<in> set categoryNames" for t e
    by (auto simp add: visible_def categoryNames_def)
  have known: "set (map Str (getRenderPlan t)) \<subseteq> set categoryNames" for t
    by (auto simp only: getRenderPlan_filter set_filter dest: vis)
  from known [of "s\<lparr>categoryOrder := xs @ c # ys\<rparr>"] assms
  have "c \<notin> set (map Str (getRenderPlan (s\<lparr>categoryOrder := xs @ c # ys\<rparr>)))" by blast
  with same known show ?thesis by blast
qed

text \<open>The theorem at an order with the foreign name \<open>Tones\<close>, and at one with \<open>undefined\<close>.\<close>

theorem unknown_category_skipped_witness:
  "Str ''Tones'' \<notin> set categoryNames
   \<and> onOpen (DEFAULT_SETTINGS\<lparr>categoryOrder := [Str ''Vowels''] @ Str ''Tones'' # [Str ''Diacritics'']\<rparr>)
       = [H2 ''IPA Palette'', Section ''Vowels'' ipaVowels, Section ''Diacritics'' diacritics]
   \<and> Undefined \<notin> set categoryNames
   \<and> getRenderPlan (DEFAULT_SETTINGS\<lparr>categoryOrder := [] @ Undefined # [Str ''Consonants'']\<rparr>)
       = [''Consonants'']"
proof -
  have h1: "Str ''Tones'' \<notin> set categoryNames" by (simp add: categoryNames_def)
  have h2: "Undefined \<notin> set categoryNames" by (simp add: categoryNames_def)
  have r1: "onOpen (DEFAULT_SETTINGS\<lparr>categoryOrder := [Str ''Vowels''] @ [Str ''Diacritics'']\<rparr>)
       = [H2 ''IPA Palette'', Section ''Vowels'' ipaVowels, Section ''Diacritics'' diacritics]"
    by (simp add: onOpen_def DEFAULT_SETTINGS_def renderCategory_def createCharacterSection_def)
  have r2: "getRenderPlan (DEFAULT_SETTINGS\<lparr>categoryOrder := [] @ [Str ''Consonants'']\<rparr>) = [''Consonants'']"
    by (simp add: getRenderPlan_def onOpen_def DEFAULT_SETTINGS_def renderCategory_def createCharacterSection_def)
  from unknown_category_skipped [OF h1, where s = DEFAULT_SETTINGS and xs = "[Str ''Vowels'']"
         and ys = "[Str ''Diacritics'']"]
       unknown_category_skipped [OF h2, where s = DEFAULT_SETTINGS and xs = "[]"
         and ys = "[Str ''Consonants'']"]
       h1 h2 r1 r2
  show ?thesis by (simp add: getRenderPlan_def)
qed

section \<open>The insertion target tracker\<close>

subsection \<open>The editor\<close>

text \<open>
  For a text without line break and a position inside the document, \<open>replaceRange\<close>
  changes one line and \<open>setCursor\<close> does not clip.
\<close>

lemma splitLines_singleLine: "singleLine t \<Longrightarrow> splitLines t = [t]"
  by (induction t) (simp_all add: singleLine_def)

lemma clipPos_valid: "validPos ls p \<Longrightarrow> clipPos ls p = p"
  by (simp add: validPos_def clipPos_def min_def)

lemma insertLines_single:
  assumes "validPos ls p"
  shows "insertLines ls p [t] = ls[line p := take (ch p) (ls ! line p) @ t @ drop (ch p) (ls ! line p)]"
  using assms by (simp add: insertLines_def validPos_def Let_def upd_conv_take_nth_drop)

subsection \<open>Focus changes\<close>

lemma onActiveLeafChange_None:
  "activeMarkdownView w = None \<Longrightarrow> onActiveLeafChange w v = v"
  by (simp add: onActiveLeafChange_def)

lemma focusChanges_no_editor:
  "\<forall>w \<in> set ws. activeMarkdownView w = None \<Longrightarrow> focusChanges ws v = v"
  by (induction ws arbitrary: v) (simp_all add: focusChanges_def onActiveLeafChange_None)


subsection \<open>Inserting a glyph\<close>

lemma insert_editor_state:
  assumes "lastActiveEditor v = Some e" "lastActiveView v = Some a"
    and "validPos (doc (editors w e)) (getCursor (editors w e))"
    and "singleLine symbol"
  shows "editors (insertCharacterAtCursor symbol v w) =
           (editors w)(e := \<lparr>doc = (doc (editors w e))[line (getCursor (editors w e)) :=
                take (ch (getCursor (editors w e))) (doc (editors w e) ! line (getCursor (editors w e)))
                @ symbol
                @ drop (ch (getCursor (editors w e))) (doc (editors w e) ! line (getCursor (editors w e)))],
              cursor = \<lparr>line = line (getCursor (editors w e)),
                        ch = ch (getCursor (editors w e)) + length symbol\<rparr>\<rparr>)"
proof -
  define ed where "ed = editors w e"
  define p where "p = getCursor ed"
  define l where "l = doc ed ! line p"
  define ls where "ls = (doc ed)[line p := take (ch p) l @ symbol @ drop (ch p) l]"
  have vp: "validPos (doc ed) p" using assms(3) by (simp add: ed_def p_def)
  have rr: "replaceRange symbol p ed = ed\<lparr>doc := ls\<rparr>"
    by (simp add: replaceRange_def clipPos_valid [OF vp] splitLines_singleLine [OF assms(4)]
          insertLines_single [OF vp] ls_def l_def)
  have vq: "validPos ls \<lparr>line = line p, ch = ch p + length symbol\<rparr>"
    using vp by (simp add: validPos_def ls_def l_def)
  have sc: "setCursor \<lparr>line = line p, ch = ch p + length symbol\<rparr> (ed\<lparr>doc := ls\<rparr>)
            = \<lparr>doc = ls, cursor = \<lparr>line = line p, ch = ch p + length symbol\<rparr>\<rparr>"
    by (simp add: setCursor_def clipPos_valid [OF vq])
  have "editors (insertCharacterAtCursor symbol v w)
        = (editors w)(e := \<lparr>doc = ls, cursor = \<lparr>line = line p, ch = ch p + length symbol\<rparr>\<rparr>)"
    using assms(1,2) rr sc
    by (simp add: insertCharacterAtCursor_def Let_def updateEditor_def focus_def
          ed_def [symmetric] p_def [symmetric])
  then show ?thesis by (simp only: ls_def l_def p_def ed_def)
qed

text \<open>
  Claim C2. With an insertion target stored whose editor has its cursor at
  \<open>(L, C)\<close>, a position of its document, inserting a symbol (a text without line
  break) changes the document only in line \<open>L\<close>, which becomes its first \<open>C\<close> code
  units, the symbol, and the rest of the line: nothing is replaced, and the text before
  and after the position is as it was. The cursor is then at \<open>(L, C + length symbol)\<close>.
  No other editor changes and no notice is shown.
\<close>

theorem insert_at_cursor:
  assumes "lastActiveEditor v = Some e" and "lastActiveView v = Some a"
    and "getCursor (editors w e) = \<lparr>line = L, ch = C\<rparr>"
    and "validPos (doc (editors w e)) \<lparr>line = L, ch = C\<rparr>"
    and "singleLine symbol"
  shows "doc (editors (insertCharacterAtCursor symbol v w) e)
           = (doc (editors w e))[L := take C (doc (editors w e) ! L) @ symbol
                                       @ drop C (doc (editors w e) ! L)]
       \<and> getCursor (editors (insertCharacterAtCursor symbol v w) e)
           = \<lparr>line = L, ch = C + length symbol\<rparr>
       \<and> (\<forall>r. r \<noteq> e \<longrightarrow> editors (insertCharacterAtCursor symbol v w) r = editors w r)
       \<and> notices (insertCharacterAtCursor symbol v w) = notices w"
proof -
  have vp: "validPos (doc (editors w e)) (getCursor (editors w e))"
    using assms(3,4) by simp
  have n: "notices (insertCharacterAtCursor symbol v w) = notices w"
    using assms(1,2)
    by (simp add: insertCharacterAtCursor_def Let_def updateEditor_def focus_def)
  have c: "cursor (editors w e) = \<lparr>line = L, ch = C\<rparr>"
    using assms(3) by (simp add: getCursor_def)
  show ?thesis
    using n by (simp add: insert_editor_state [OF assms(1,2) vp assms(5)] getCursor_def c)
qed

text \<open>Every glyph of the palette is one code unit and no line break.\<close>

lemma palette_glyphs_singleLine:
  "\<forall>g \<in> set (ipaVowels @ ipaConsonants @ diacritics @ suprasegmentals). singleLine g \<and> length g = 1"
  by (simp add: ipaVowels_def ipaConsonants_def diacritics_def suprasegmentals_def singleLine_def)


text \<open>The theorem on the sample workspace, inserting the glyph U+0259.\<close>

theorem insert_at_cursor_witness:
  "lastActiveEditor (onActiveLeafChange sampleWorkspace newIPAPaletteView) = Some 1
   \<and> lastActiveView (onActiveLeafChange sampleWorkspace newIPAPaletteView) = Some 0
   \<and> getCursor (editors sampleWorkspace 1) = \<lparr>line = 0, ch = 1\<rparr>
   \<and> validPos (doc (editors sampleWorkspace 1)) \<lparr>line = 0, ch = 1\<rparr>
   \<and> singleLine [601]
   \<and> doc (editors (insertCharacterAtCursor [601]
         (onActiveLeafChange sampleWorkspace newIPAPaletteView) sampleWorkspace) 1)
       = [[112, 601, 97], [116]]
   \<and> getCursor (editors (insertCharacterAtCursor [601]
         (onActiveLeafChange sampleWorkspace newIPAPaletteView) sampleWorkspace) 1)
       = \<lparr>line = 0, ch = 2\<rparr>"
proof -
  have h1: "lastActiveEditor (onActiveLeafChange sampleWorkspace newIPAPaletteView) = Some 1"
    by (simp add: onActiveLeafChange_def sampleWorkspace_def newIPAPaletteView_def)
  have h2: "lastActiveView (onActiveLeafChange sampleWorkspace newIPAPaletteView) = Some 0"
    by (simp add: onActiveLeafChange_def sampleWorkspace_def newIPAPaletteView_def)
  have h3: "getCursor (editors sampleWorkspace 1) = \<lparr>line = 0, ch = 1\<rparr>"
    by (simp add: getCursor_def sampleWorkspace_def)
  have h4: "validPos (doc (editors sampleWorkspace 1)) \<lparr>line = 0, ch = 1\<rparr>"
    by (simp add: validPos_def sampleWorkspace_def)
  have h5: "singleLine [601]"
    by (simp add: singleLine_def)
  have d: "doc (editors sampleWorkspace r) = [[112, 97], [116]]" for r
    by (simp add: sampleWorkspace_def)
  from insert_at_cursor [OF h1 h2 h3 h4 h5] h1 h2 h3 h4 h5 show ?thesis
    by (simp add: d)
qed

lemma insert_no_target:
  assumes "lastActiveEditor v = None \<or> lastActiveView v = None"
  shows "insertCharacterAtCursor symbol v w
         = Notice ''No active markdown editor found. Please click in an editor first.'' w"
  using assms by (auto simp add: insertCharacterAtCursor_def split: option.splits)

text \<open>
  Claim C3. When no focus change since the construction of the view resolved to an
  editor, so that no insertion target was ever stored, \<open>insertCharacterAtCursor\<close> shows
  exactly one notice and changes nothing else: no editor's document or cursor, and
  not the focus. The function has no exceptional result: the branch taken only creates
  the notice.
\<close>

theorem insert_without_target:
  assumes "\<forall>w' \<in> set ws. activeMarkdownView w' = None"
  shows "notices (insertCharacterAtCursor symbol (focusChanges ws newIPAPaletteView) w)
           = notices w @ [''No active markdown editor found. Please click in an editor first.'']
       \<and> length (notices (insertCharacterAtCursor symbol (focusChanges ws newIPAPaletteView) w))
           = length (notices w) + 1
       \<and> editors (insertCharacterAtCursor symbol (focusChanges ws newIPAPaletteView) w) = editors w
       \<and> focused (insertCharacterAtCursor symbol (focusChanges ws newIPAPaletteView) w) = focused w
       \<and> insertCharacterAtCursor symbol (focusChanges ws newIPAPaletteView) w
           = w\<lparr>notices := notices w
                  @ [''No active markdown editor found. Please click in an editor first.'']\<rparr>"
proof -
  have "focusChanges ws newIPAPaletteView = newIPAPaletteView"
    using assms by (rule focusChanges_no_editor)
  then have "insertCharacterAtCursor symbol (focusChanges ws newIPAPaletteView) w
         = Notice ''No active markdown editor found. Please click in an editor first.'' w"
    by (simp add: insert_no_target newIPAPaletteView_def)
  then show ?thesis by (simp add: Notice_def)
qed

text \<open>The theorem after one focus change to a surface that is not an editor.\<close>

theorem insert_without_target_witness:
  "activeMarkdownView (sampleWorkspace\<lparr>activeMarkdownView := None\<rparr>) = None
   \<and> notices (insertCharacterAtCursor [601]
        (focusChanges [sampleWorkspace\<lparr>activeMarkdownView := None\<rparr>] newIPAPaletteView)
        sampleWorkspace)
       = [''No active markdown editor found. Please click in an editor first.'']
   \<and> editors (insertCharacterAtCursor [601]
        (focusChanges [sampleWorkspace\<lparr>activeMarkdownView := None\<rparr>] newIPAPaletteView)
        sampleWorkspace) = editors sampleWorkspace"
proof -
  have h: "\<forall>w' \<in> set [sampleWorkspace\<lparr>activeMarkdownView := None\<rparr>]. activeMarkdownView w' = None"
    by simp
  have n: "notices sampleWorkspace = []" by (simp add: sampleWorkspace_def)
  from insert_without_target [OF h, of "[601]" sampleWorkspace] h n show ?thesis
    by simp
qed

text \<open>
  Claim C4. After a sequence of focus changes, the stored target is the view and the
  editor of the last event that resolved to a Markdown view, however many events that
  resolved to no editor came after it; events that resolve to no editor leave the
  stored target as it is.
\<close>

theorem target_is_last_editor_event:
  assumes "activeMarkdownView w = Some a"
    and "\<forall>w' \<in> set post. activeMarkdownView w' = None"
  shows "lastActiveView (focusChanges (pre @ w # post) v) = Some a
       \<and> lastActiveEditor (focusChanges (pre @ w # post) v) = Some (viewEditor w a)
       \<and> focusChanges post u = u"
proof -
  have u: "focusChanges post u = u" for u
    using assms(2) by (rule focusChanges_no_editor)
  have "focusChanges (pre @ w # post) v = focusChanges post (onActiveLeafChange w (focusChanges pre v))"
    by (simp add: focusChanges_def)
  then have "focusChanges (pre @ w # post) v = onActiveLeafChange w (focusChanges pre v)"
    by (simp only: u)
  then show ?thesis
    using assms(1) u by (simp add: onActiveLeafChange_def)
qed

text \<open>
  The theorem on a sequence of four events: the view 5, the view 0, and two surfaces
  that are no editors.
\<close>

theorem target_is_last_editor_event_witness:
  "activeMarkdownView sampleWorkspace = Some 0
   \<and> activeMarkdownView (sampleWorkspace\<lparr>activeMarkdownView := None\<rparr>) = None
   \<and> lastActiveView (focusChanges ([sampleWorkspace\<lparr>activeMarkdownView := Some 5\<rparr>]
        @ sampleWorkspace # [sampleWorkspace\<lparr>activeMarkdownView := None\<rparr>,
                             sampleWorkspace\<lparr>activeMarkdownView := None\<rparr>])
        newIPAPaletteView) = Some 0
   \<and> lastActiveEditor (focusChanges ([sampleWorkspace\<lparr>activeMarkdownView := Some 5\<rparr>]
        @ sampleWorkspace # [sampleWorkspace\<lparr>activeMarkdownView := None\<rparr>,
                             sampleWorkspace\<lparr>activeMarkdownView := None\<rparr>])
        newIPAPaletteView) = Some 1"
proof -
  have h1: "activeMarkdownView sampleWorkspace = Some 0"
    by (simp add: sampleWorkspace_def)
  have h2: "\<forall>w' \<in> set [sampleWorkspace\<lparr>activeMarkdownView := None\<rparr>,
                    sampleWorkspace\<lparr>activeMarkdownView := None\<rparr>]. activeMarkdownView w' = None"
    by simp
  have e: "viewEditor sampleWorkspace 0 = 1" by (simp add: sampleWorkspace_def)
  from target_is_last_editor_event [OF h1 h2,
         of "[sampleWorkspace\<lparr>activeMarkdownView := Some 5\<rparr>]" newIPAPaletteView] h1 h2 e
  show ?thesis by simp
qed

subsection \<open>The two handles of the target\<close>

lemma onActiveLeafChange_paired:
  "(lastActiveEditor v = None) = (lastActiveView v = None)
   \<Longrightarrow> (lastActiveEditor (onActiveLeafChange w v) = None)
       = (lastActiveView (onActiveLeafChange w v) = None)"
  by (simp add: onActiveLeafChange_def split: option.splits)

lemma focusChanges_paired:
  "(lastActiveEditor v = None) = (lastActiveView v = None)
   \<Longrightarrow> (lastActiveEditor (focusChanges ws v) = None) = (lastActiveView (focusChanges ws v) = None)"
proof (induction ws arbitrary: v)
  case Nil
  then show ?case by (simp add: focusChanges_def)
next
  case (Cons w ws)
  have "focusChanges (w # ws) v = focusChanges ws (onActiveLeafChange w v)"
    by (simp add: focusChanges_def)
  with Cons.IH [OF onActiveLeafChange_paired [OF Cons.prems]] show ?case by simp
qed

text \<open>
  Claim C9. The editor handle and the view handle of the tracker are both absent or
  both present. The constructor leaves both absent; the focus handler changes nothing
  or sets both, the editor being the editor of the view; so after every sequence of
  focus changes one is absent exactly when the other is. Refreshing the view keeps
  both. Hence \<open>insertCharacterAtCursor\<close> finds both handles, or none and shows the
  notice.
\<close>

theorem target_handles_paired:
  "lastActiveEditor newIPAPaletteView = None \<and> lastActiveView newIPAPaletteView = None
   \<and> (onActiveLeafChange w v = v
       \<or> (\<exists>a. lastActiveView (onActiveLeafChange w v) = Some a
              \<and> lastActiveEditor (onActiveLeafChange w v) = Some (viewEditor w a)))
   \<and> (lastActiveEditor (focusChanges ws newIPAPaletteView) = None)
       = (lastActiveView (focusChanges ws newIPAPaletteView) = None)
   \<and> (\<forall>u. ipaView p = Some u \<longrightarrow>
         (\<exists>u'. ipaView (refreshView p) = Some u'
            \<and> lastActiveEditor u' = lastActiveEditor u \<and> lastActiveView u' = lastActiveView u))
   \<and> ((\<exists>e a. lastActiveEditor (focusChanges ws newIPAPaletteView) = Some e
             \<and> lastActiveView (focusChanges ws newIPAPaletteView) = Some a)
       \<or> insertCharacterAtCursor symbol (focusChanges ws newIPAPaletteView) w'
           = Notice ''No active markdown editor found. Please click in an editor first.'' w'
         \<and> lastActiveEditor (focusChanges ws newIPAPaletteView) = None
         \<and> lastActiveView (focusChanges ws newIPAPaletteView) = None)"
proof -
  have init: "lastActiveEditor newIPAPaletteView = None \<and> lastActiveView newIPAPaletteView = None"
    by (simp add: newIPAPaletteView_def)
  have step: "onActiveLeafChange w v = v
       \<or> (\<exists>a. lastActiveView (onActiveLeafChange w v) = Some a
              \<and> lastActiveEditor (onActiveLeafChange w v) = Some (viewEditor w a))"
    by (simp add: onActiveLeafChange_def split: option.splits)
  have inv: "(lastActiveEditor (focusChanges ws newIPAPaletteView) = None)
       = (lastActiveView (focusChanges ws newIPAPaletteView) = None)"
    by (rule focusChanges_paired) (simp add: init)
  have refresh: "\<forall>u. ipaView p = Some u \<longrightarrow>
         (\<exists>u'. ipaView (refreshView p) = Some u'
            \<and> lastActiveEditor u' = lastActiveEditor u \<and> lastActiveView u' = lastActiveView u)"
    by (simp add: refreshView_def Let_def)
  have ins: "(\<exists>e a. lastActiveEditor (focusChanges ws newIPAPaletteView) = Some e
             \<and> lastActiveView (focusChanges ws newIPAPaletteView) = Some a)
       \<or> insertCharacterAtCursor symbol (focusChanges ws newIPAPaletteView) w'
           = Notice ''No active markdown editor found. Please click in an editor first.'' w'
         \<and> lastActiveEditor (focusChanges ws newIPAPaletteView) = None
         \<and> lastActiveView (focusChanges ws newIPAPaletteView) = None"
  proof (cases "lastActiveEditor (focusChanges ws newIPAPaletteView)")
    case None
    with inv have "lastActiveView (focusChanges ws newIPAPaletteView) = None" by simp
    with None show ?thesis by (simp add: insert_no_target)
  next
    case (Some e)
    with inv obtain a where "lastActiveView (focusChanges ws newIPAPaletteView) = Some a"
      by auto
    with Some show ?thesis by simp
  qed
  from init step inv refresh ins show ?thesis by blast
qed

text \<open>The theorem for a palette view that has stored the view 0 and its editor.\<close>

theorem target_handles_paired_witness:
  "ipaView ((onload None False)\<lparr>ipaView := Some (onActiveLeafChange sampleWorkspace newIPAPaletteView)\<rparr>)
     = Some (onActiveLeafChange sampleWorkspace newIPAPaletteView)
   \<and> map lastActiveEditor (case ipaView (refreshView ((onload None False)\<lparr>ipaView :=
        Some (onActiveLeafChange sampleWorkspace newIPAPaletteView)\<rparr>)) of None \<Rightarrow> [] | Some u \<Rightarrow> [u])
       = [Some 1]
   \<and> map lastActiveView (case ipaView (refreshView ((onload None False)\<lparr>ipaView :=
        Some (onActiveLeafChange sampleWorkspace newIPAPaletteView)\<rparr>)) of None \<Rightarrow> [] | Some u \<Rightarrow> [u])
       = [Some 0]"
proof -
  have h: "ipaView ((onload None False)\<lparr>ipaView := Some (onActiveLeafChange sampleWorkspace newIPAPaletteView)\<rparr>)
     = Some (onActiveLeafChange sampleWorkspace newIPAPaletteView)"
    by simp
  have t: "lastActiveEditor (onActiveLeafChange sampleWorkspace newIPAPaletteView) = Some 1"
       "lastActiveView (onActiveLeafChange sampleWorkspace newIPAPaletteView) = Some 0"
    by (simp_all add: onActiveLeafChange_def sampleWorkspace_def newIPAPaletteView_def)
  from target_handles_paired [where p = "(onload None False)\<lparr>ipaView :=
        Some (onActiveLeafChange sampleWorkspace newIPAPaletteView)\<rparr>"] h
  obtain u' where "ipaView (refreshView ((onload None False)\<lparr>ipaView :=
        Some (onActiveLeafChange sampleWorkspace newIPAPaletteView)\<rparr>)) = Some u'"
     "lastActiveEditor u' = lastActiveEditor (onActiveLeafChange sampleWorkspace newIPAPaletteView)"
     "lastActiveView u' = lastActiveView (onActiveLeafChange sampleWorkspace newIPAPaletteView)"
    by blast
  with h t show ?thesis by simp
qed

end
